theory Spec2Isabelle
  imports Main
begin

section \<open>Section components\<close>

text \<open>
  The seven content components that \<open>App\<close> imports and places in its output. Each is a
  parameterless function over hardcoded data; what matters to the router and the composer
  is which component stands where.
\<close>

datatype component =
    Hero
  | About
  | ProgramDetails
  | AIXProject
  | MultiSorterProject
  | AutonomousCarProject
  | StudentExchange

text \<open>The \<open>id\<close> attribute of the \<open>section\<close> element that each component returns.\<close>

fun section_id :: "component \<Rightarrow> string" where
  "section_id Hero = ''hero''"
| "section_id About = ''about''"
| "section_id ProgramDetails = ''programs''"
| "section_id AIXProject = ''aix''"
| "section_id MultiSorterProject = ''multi-sorter''"
| "section_id AutonomousCarProject = ''autonomous-car''"
| "section_id StudentExchange = ''student-exchange''"

section \<open>The composed content of \<open>App\<close>\<close>

text \<open>
  \<open>a || b\<close> on JavaScript strings: the empty string is the only falsy string, so the
  result is \<open>a\<close> unless \<open>a\<close> is empty.
\<close>

definition js_or :: "string \<Rightarrow> string \<Rightarrow> string" where
  "js_or a b = (if a = [] then b else a)"

text \<open>The value of the inline style \<open>display\<close> that wraps each single-page entry.\<close>

datatype css_display = Block | NoDisplay

text \<open>
  One \<open>div key={hash} style={{ display: ... }}\<close> of the single-page output, with the
  component element it contains.
\<close>

record page_div =
  key :: string
  display :: css_display
  child :: component

text \<open>
  What \<open>main\<close> receives: either the fragment of the home page, whose children are
  the components themselves with no wrapper and no style, or the wrapper
  \<open>div className="pt-24 min-h-screen"\<close> with one \<open>page_div\<close> per entry of \<open>pages\<close>.
\<close>

datatype render_output =
    Fragment "component list"
  | PageWrapper "page_div list"

definition isHomePage :: "string \<Rightarrow> bool" where
  "isHomePage currentView = (currentView = ''#home'' \<or> currentView = ''#hero'')"

definition renderHomePageContent :: "component list" where
  "renderHomePageContent =
     [Hero, About, ProgramDetails, AIXProject, MultiSorterProject,
      AutonomousCarProject, StudentExchange]"

text \<open>
  The object literal \<open>pages\<close> as \<open>Object.entries\<close> enumerates it: none of the keys is an
  integer index, so the entries come in the order in which the literal writes them.
\<close>

definition pages :: "(string \<times> component) list" where
  "pages =
     [(''#about'', About),
      (''#programs'', ProgramDetails),
      (''#autonomous-car'', AutonomousCarProject),
      (''#aix'', AIXProject),
      (''#multi-sorter'', MultiSorterProject),
      (''#student-exchange'', StudentExchange)]"

definition page_entry :: "string \<Rightarrow> string \<times> component \<Rightarrow> page_div" where
  "page_entry currentView e =
     \<lparr>key = fst e,
      display = (if currentView = fst e then Block else NoDisplay),
      child = snd e\<rparr>"

definition renderSinglePageContent :: "string \<Rightarrow> page_div list" where
  "renderSinglePageContent currentView = map (page_entry currentView) pages"

definition render :: "string \<Rightarrow> render_output" where
  "render currentView =
     (if isHomePage currentView then Fragment renderHomePageContent
      else PageWrapper (renderSinglePageContent currentView))"

text \<open>
  Observations on an output. Everything in it is mounted; a component is on screen unless
  its wrapper has \<open>display: none\<close>.
\<close>

definition shown :: "page_div \<Rightarrow> bool" where
  "shown d = (display d = Block)"

definition hidden :: "page_div \<Rightarrow> bool" where
  "hidden d = (display d = NoDisplay)"

definition entry_of :: "page_div \<Rightarrow> string \<times> component" where
  "entry_of d = (key d, child d)"

fun mounted :: "render_output \<Rightarrow> component list" where
  "mounted (Fragment cs) = cs"
| "mounted (PageWrapper ds) = map child ds"

fun visible :: "render_output \<Rightarrow> component list" where
  "visible (Fragment cs) = cs"
| "visible (PageWrapper ds) = map child (filter shown ds)"

text \<open>
  The keys of \<open>pages\<close> in insertion order, the keys under which \<open>pages\<close> holds a
  given component, and the keys of the home page's components in the order of the home
  page (\<open>Hero\<close> has no entry in \<open>pages\<close> and contributes none).
\<close>

definition registry_keys :: "string list" where
  "registry_keys = map fst pages"

definition keys_of :: "component \<Rightarrow> string list" where
  "keys_of c = map fst (filter (\<lambda>e. snd e = c) pages)"

definition home_registry_keys :: "string list" where
  "home_registry_keys = concat (map keys_of renderHomePageContent)"

text \<open>
  The fragments that the composer tells apart: the two that \<open>isHomePage\<close> accepts and
  the keys of \<open>pages\<close>.
\<close>

definition recognized_fragments :: "string list" where
  "recognized_fragments = ''#home'' # ''#hero'' # registry_keys"

section \<open>The router: state, handler and events\<close>

text \<open>
  The part of the browser's \<open>window\<close> that \<open>App\<close> reads and writes: the fragment
  (\<open>window.location.hash\<close>, empty when the URL has none), the scroll position, whether
  \<open>handleHashChange\<close> is registered for \<open>hashchange\<close>, and the calls of
  \<open>window.scrollTo\<close> so far, latest first.
\<close>

record window =
  location_hash :: string
  scroll_pos :: "int \<times> int"
  hashchange_listener :: bool
  scrollTo_calls :: "(int \<times> int) list"

record app =
  win :: window
  currentView :: string

text \<open>\<open>useState(window.location.hash || '#home')\<close> at the first render.\<close>

definition useState_init :: "window \<Rightarrow> app" where
  "useState_init w = \<lparr>win = w, currentView = js_or (location_hash w) ''#home''\<rparr>"

definition setCurrentView :: "string \<Rightarrow> app \<Rightarrow> app" where
  "setCurrentView v a = a\<lparr>currentView := v\<rparr>"

definition scrollTo :: "int \<Rightarrow> int \<Rightarrow> app \<Rightarrow> app" where
  "scrollTo x y a =
     a\<lparr>win := (win a)\<lparr>scroll_pos := (x, y),
                       scrollTo_calls := (x, y) # scrollTo_calls (win a)\<rparr>\<rparr>"

definition handleHashChange :: "app \<Rightarrow> app" where
  "handleHashChange a =
     (let newHash = js_or (location_hash (win a)) ''#home''
      in scrollTo 0 0 (setCurrentView newHash a))"

definition addEventListener :: "app \<Rightarrow> app" where
  "addEventListener a = a\<lparr>win := (win a)\<lparr>hashchange_listener := True\<rparr>\<rparr>"

definition removeEventListener :: "app \<Rightarrow> app" where
  "removeEventListener a = a\<lparr>win := (win a)\<lparr>hashchange_listener := False\<rparr>\<rparr>"

text \<open>
  The effect of \<open>useEffect(..., [])\<close>, run once after the first render: register the
  handler, then call it (the "initial load check"). Its cleanup deregisters the handler.
\<close>

definition useEffect_run :: "app \<Rightarrow> app" where
  "useEffect_run a = handleHashChange (addEventListener a)"

definition useEffect_cleanup :: "app \<Rightarrow> app" where
  "useEffect_cleanup a = removeEventListener a"

definition App_mount :: "window \<Rightarrow> app" where
  "App_mount w = useEffect_run (useState_init w)"

text \<open>
  A fragment-change event: the browser has set the fragment to \<open>f\<close> and dispatches
  \<open>hashchange\<close>; the handler runs when it is registered.
\<close>

definition set_location_hash :: "string \<Rightarrow> app \<Rightarrow> app" where
  "set_location_hash f a = a\<lparr>win := (win a)\<lparr>location_hash := f\<rparr>\<rparr>"

definition hashchange :: "string \<Rightarrow> app \<Rightarrow> app" where
  "hashchange f a =
     (if hashchange_listener (win a) then handleHashChange (set_location_hash f a)
      else set_location_hash f a)"

fun run :: "app \<Rightarrow> string list \<Rightarrow> app" where
  "run a [] = a"
| "run a (f # fs) = run (hashchange f a) fs"

section \<open>The header's anchors\<close>

text \<open>
  The \<open>href\<close> of each entry of \<open>navLinks\<close>, in order (the \<open>name\<close> of an entry is its
  label on screen), and the \<open>href\<close> of every anchor of the header: the logo first, then
  one anchor per entry.
\<close>

definition navLinks :: "string list" where
  "navLinks =
     [''#about'', ''#programs'', ''#aix'', ''#multi-sorter'', ''#autonomous-car'',
      ''#student-exchange'']"

definition Header_hrefs :: "string list" where
  "Header_hrefs = ''#home'' # navLinks"

section \<open>Facts about the composer\<close>

lemma registry_keys_eq:
  "registry_keys =
     [''#about'', ''#programs'', ''#autonomous-car'', ''#aix'', ''#multi-sorter'',
      ''#student-exchange'']"
  by (simp add: registry_keys_def pages_def)

lemma home_registry_keys_eq:
  "home_registry_keys =
     [''#about'', ''#programs'', ''#aix'', ''#multi-sorter'', ''#autonomous-car'',
      ''#student-exchange'']"
  by (simp add: home_registry_keys_def renderHomePageContent_def keys_of_def pages_def)

lemma length_pages: "length pages = 6"
  by (simp add: pages_def)

lemma isHomePage_iff: "isHomePage f \<longleftrightarrow> f \<in> {''#home'', ''#hero''}"
  by (auto simp: isHomePage_def)

lemma not_home_registry_key: "f \<in> set registry_keys \<Longrightarrow> \<not> isHomePage f"
  unfolding registry_keys_eq isHomePage_def by auto

lemma shown_page_entry: "shown (page_entry f e) = (f = fst e)"
  by (simp add: shown_def page_entry_def)

lemma hidden_page_entry: "hidden (page_entry f e) = (f \<noteq> fst e)"
  by (simp add: hidden_def page_entry_def)

lemma key_page_entry: "key (page_entry f e) = fst e"
  by (simp add: page_entry_def)

lemma child_page_entry: "child (page_entry f e) = snd e"
  by (simp add: page_entry_def)

text \<open>Whatever the state, the single-page output wraps the entries of \<open>pages\<close>, in order.\<close>

lemma entries_renderSinglePageContent:
  "map entry_of (renderSinglePageContent f) = pages"
  by (simp add: renderSinglePageContent_def entry_of_def page_entry_def comp_def)

lemma shown_renderSinglePageContent:
  "filter shown (renderSinglePageContent f) =
     map (page_entry f) (filter (\<lambda>e. f = fst e) pages)"
  by (simp add: renderSinglePageContent_def filter_map comp_def shown_page_entry)

lemma hidden_renderSinglePageContent:
  "filter hidden (renderSinglePageContent f) =
     map (page_entry f) (filter (\<lambda>e. f \<noteq> fst e) pages)"
  by (simp add: renderSinglePageContent_def filter_map comp_def hidden_page_entry)

text \<open>The six keys one by one: evaluation on closed terms.\<close>

lemma single_page_each:
  "list_all (\<lambda>f. map key (filter shown (renderSinglePageContent f)) = [f]
       \<and> length (filter hidden (renderSinglePageContent f)) = 5
       \<and> map section_id (map child (filter shown (renderSinglePageContent f))) = [tl f])
     registry_keys"
  unfolding registry_keys_eq renderSinglePageContent_def pages_def
  by (simp add: shown_page_entry hidden_page_entry key_page_entry child_page_entry)

section \<open>Facts about the router\<close>

lemma js_or_nonempty: "b \<noteq> [] \<Longrightarrow> js_or a b \<noteq> []"
  by (simp add: js_or_def)

lemma currentView_handleHashChange:
  "currentView (handleHashChange a) = js_or (location_hash (win a)) ''#home''"
  by (simp add: handleHashChange_def scrollTo_def setCurrentView_def)

lemma win_handleHashChange:
  "win (handleHashChange a) =
     (win a)\<lparr>scroll_pos := (0, 0), scrollTo_calls := (0, 0) # scrollTo_calls (win a)\<rparr>"
  by (simp add: handleHashChange_def scrollTo_def setCurrentView_def)

lemma currentView_set_location_hash [simp]:
  "currentView (set_location_hash f a) = currentView a"
  by (simp add: set_location_hash_def)

lemma win_set_location_hash [simp]:
  "win (set_location_hash f a) = (win a)\<lparr>location_hash := f\<rparr>"
  by (simp add: set_location_hash_def)

lemma currentView_hashchange:
  "currentView (hashchange f a) =
     (if hashchange_listener (win a) then js_or f ''#home'' else currentView a)"
  by (simp add: hashchange_def currentView_handleHashChange)

lemma listener_hashchange [simp]:
  "hashchange_listener (win (hashchange f a)) = hashchange_listener (win a)"
  by (simp add: hashchange_def win_handleHashChange)

lemma listener_run [simp]:
  "hashchange_listener (win (run a fs)) = hashchange_listener (win a)"
  by (induction fs arbitrary: a) simp_all

lemma listener_App_mount [simp]: "hashchange_listener (win (App_mount w))"
  by (simp add: App_mount_def useEffect_run_def win_handleHashChange addEventListener_def
      useState_init_def)

lemma currentView_App_mount:
  "currentView (App_mount w) = js_or (location_hash w) ''#home''"
  by (simp add: App_mount_def useEffect_run_def currentView_handleHashChange
      addEventListener_def useState_init_def)

lemma currentView_hashchange_nonempty:
  "currentView a \<noteq> [] \<Longrightarrow> currentView (hashchange f a) \<noteq> []"
  by (simp add: currentView_hashchange js_or_nonempty)

lemma currentView_run_nonempty:
  "currentView a \<noteq> [] \<Longrightarrow> currentView (run a fs) \<noteq> []"
proof (induction fs arbitrary: a)
  case Nil
  then show ?case by simp
next
  case (Cons f fs)
  from Cons.prems have "currentView (hashchange f a) \<noteq> []"
    by (rule currentView_hashchange_nonempty)
  then show ?case
    using Cons.IH by simp
qed

section \<open>Single-page mode\<close>

text \<open>
  C1. For every navigation state \<open>f\<close> that is one of the six keys of \<open>pages\<close>, the
  output is the page wrapper holding all six entries of \<open>pages\<close> at once; exactly one
  of them is shown, the one whose key is \<open>f\<close> (its section id is \<open>f\<close> without the
  \<open>#\<close>), and the other five are in the output with \<open>display: none\<close>.
\<close>

theorem C1_single_page_one_visible:
  assumes "f \<in> {''#about'', ''#programs'', ''#aix'', ''#multi-sorter'', ''#autonomous-car'',
                ''#student-exchange''}"
  shows "render f = PageWrapper (renderSinglePageContent f)
         \<and> map entry_of (renderSinglePageContent f) = pages
         \<and> length (renderSinglePageContent f) = 6
         \<and> map key (filter shown (renderSinglePageContent f)) = [f]
         \<and> length (filter hidden (renderSinglePageContent f)) = 5
         \<and> map section_id (visible (render f)) = [tl f]"
proof -
  have k: "f \<in> set registry_keys"
    using assms unfolding registry_keys_eq by auto
  have r: "render f = PageWrapper (renderSinglePageContent f)"
    using not_home_registry_key [OF k] by (simp add: render_def)
  have l: "length (renderSinglePageContent f) = 6"
    by (simp add: renderSinglePageContent_def pages_def)
  from single_page_each k
  have e: "map key (filter shown (renderSinglePageContent f)) = [f]
       \<and> length (filter hidden (renderSinglePageContent f)) = 5
       \<and> map section_id (map child (filter shown (renderSinglePageContent f))) = [tl f]"
    unfolding list_all_iff by blast
  show ?thesis
    using r l e entries_renderSinglePageContent [of f] by simp
qed

theorem C1_witness:
  "''#aix'' \<in> {''#about'', ''#programs'', ''#aix'', ''#multi-sorter'', ''#autonomous-car'',
                ''#student-exchange''}
   \<and> render ''#aix'' = PageWrapper (renderSinglePageContent ''#aix'')
   \<and> map entry_of (renderSinglePageContent ''#aix'') = pages
   \<and> map key (filter shown (renderSinglePageContent ''#aix'')) = [''#aix'']
   \<and> length (filter hidden (renderSinglePageContent ''#aix'')) = 5
   \<and> visible (render ''#aix'') = [AIXProject]"
  using C1_single_page_one_visible [of "''#aix''"]
  by (simp add: renderSinglePageContent_def pages_def shown_page_entry child_page_entry)

text \<open>
  C4. For every navigation state \<open>f\<close> that is neither \<open>#home\<close> nor \<open>#hero\<close> nor a key of
  \<open>pages\<close>, the output is the page wrapper holding all six entries of \<open>pages\<close>, every
  one of them with \<open>display: none\<close>, so nothing is shown. \<open>render\<close> has no branch that
  throws: it returns this output.
\<close>

theorem C4_unknown_fragment_all_hidden:
  assumes "f \<notin> {''#home'', ''#hero''}" and "f \<notin> set registry_keys"
  shows "render f = PageWrapper (renderSinglePageContent f)
         \<and> map entry_of (renderSinglePageContent f) = pages
         \<and> length (renderSinglePageContent f) = 6
         \<and> filter shown (renderSinglePageContent f) = []
         \<and> length (filter hidden (renderSinglePageContent f)) = 6
         \<and> visible (render f) = []"
proof -
  have r: "render f = PageWrapper (renderSinglePageContent f)"
    using assms(1) by (simp add: render_def isHomePage_iff)
  have none: "filter (\<lambda>e. f = fst e) pages = []"
    using assms(2) by (auto simp: registry_keys_def filter_empty_conv)
  have every: "filter (\<lambda>e. f \<noteq> fst e) pages = pages"
    using assms(2) by (auto simp: registry_keys_def filter_id_conv)
  have s: "filter shown (renderSinglePageContent f) = []"
    by (simp add: shown_renderSinglePageContent none)
  have h: "length (filter hidden (renderSinglePageContent f)) = 6"
    by (simp add: hidden_renderSinglePageContent every length_pages)
  have l: "length (renderSinglePageContent f) = 6"
    by (simp add: renderSinglePageContent_def length_pages)
  show ?thesis
    using r s h l entries_renderSinglePageContent [of f] by simp
qed

theorem C4_witness:
  "''#unknown-page'' \<notin> {''#home'', ''#hero''}
   \<and> ''#unknown-page'' \<notin> set registry_keys
   \<and> render ''#unknown-page'' = PageWrapper (renderSinglePageContent ''#unknown-page'')
   \<and> map display (renderSinglePageContent ''#unknown-page'') = replicate 6 NoDisplay
   \<and> visible (render ''#unknown-page'') = []"
proof -
  have a: "''#unknown-page'' \<notin> {''#home'', ''#hero''}"
    by simp
  have b: "''#unknown-page'' \<notin> set registry_keys"
    by (simp add: registry_keys_eq)
  have c: "map display (renderSinglePageContent ''#unknown-page'') = replicate 6 NoDisplay"
    by (simp add: renderSinglePageContent_def pages_def page_entry_def numeral_Bit0 numeral_Bit1)
  show ?thesis
    using C4_unknown_fragment_all_hidden [OF a b] a b c by simp
qed

section \<open>Home mode\<close>

text \<open>
  C2. For every navigation state \<open>f\<close> in \<open>{#home, #hero}\<close> the output is the home page:
  the seven components with no hiding wrapper, so all of them are shown at once, and
  their sections come in the order hero, about, programs, aix, multi-sorter,
  autonomous-car, student-exchange.
\<close>

theorem C2_home_concatenated:
  assumes "f \<in> {''#home'', ''#hero''}"
  shows "render f =
           Fragment [Hero, About, ProgramDetails, AIXProject, MultiSorterProject,
                     AutonomousCarProject, StudentExchange]
         \<and> visible (render f) = mounted (render f)
         \<and> map section_id (visible (render f)) =
             [''hero'', ''about'', ''programs'', ''aix'', ''multi-sorter'',
              ''autonomous-car'', ''student-exchange'']"
proof -
  have "isHomePage f"
    using assms by (simp only: isHomePage_iff)
  then have "render f = Fragment renderHomePageContent"
    by (simp add: render_def)
  then show ?thesis
    by (simp add: renderHomePageContent_def)
qed

theorem C2_witness:
  "''#hero'' \<in> {''#home'', ''#hero''}
   \<and> render ''#hero'' =
       Fragment [Hero, About, ProgramDetails, AIXProject, MultiSorterProject,
                 AutonomousCarProject, StudentExchange]
   \<and> length (visible (render ''#hero'')) = 7"
  using C2_home_concatenated [of "''#hero''"] by simp

section \<open>Order of the registry and order of the home page\<close>

text \<open>
  The insertion order of \<open>pages\<close> is not the order of the home page:
  \<open>#autonomous-car\<close> is the third key of \<open>pages\<close> and the fifth of the six on the home
  page.
\<close>

theorem C5_counterexample:
  "registry_keys \<noteq> home_registry_keys"
  by (simp add: registry_keys_eq home_registry_keys_eq)

text \<open>
  C5, as the code has it. The keys of \<open>pages\<close> in insertion order are about, programs,
  autonomous-car, aix, multi-sorter, student-exchange; the same sections stand on the home
  page in the order about, programs, aix, multi-sorter, autonomous-car, student-exchange,
  after the hero block. Both sequences hold the same six keys, each once: the home page
  is a list of its own, a permutation of the registry and not derived from it.
\<close>

theorem C5_registry_order_and_home_order:
  "registry_keys =
     [''#about'', ''#programs'', ''#autonomous-car'', ''#aix'', ''#multi-sorter'',
      ''#student-exchange'']
   \<and> home_registry_keys =
     [''#about'', ''#programs'', ''#aix'', ''#multi-sorter'', ''#autonomous-car'',
      ''#student-exchange'']
   \<and> set registry_keys = set home_registry_keys
   \<and> distinct registry_keys
   \<and> distinct home_registry_keys
   \<and> map snd pages =
     [About, ProgramDetails, AutonomousCarProject, AIXProject, MultiSorterProject,
      StudentExchange]
   \<and> mounted (render ''#home'') =
     [Hero, About, ProgramDetails, AIXProject, MultiSorterProject, AutonomousCarProject,
      StudentExchange]"
proof -
  have s: "set registry_keys = set home_registry_keys"
    unfolding registry_keys_eq home_registry_keys_eq by (simp add: insert_commute)
  have d1: "distinct registry_keys"
    unfolding registry_keys_eq by simp
  have d2: "distinct home_registry_keys"
    unfolding home_registry_keys_eq by simp
  have p: "map snd pages =
     [About, ProgramDetails, AutonomousCarProject, AIXProject, MultiSorterProject,
      StudentExchange]"
    by (simp add: pages_def)
  have m: "mounted (render ''#home'') =
     [Hero, About, ProgramDetails, AIXProject, MultiSorterProject, AutonomousCarProject,
      StudentExchange]"
    by (simp add: render_def isHomePage_def renderHomePageContent_def)
  show ?thesis
    using s d1 d2 p m registry_keys_eq home_registry_keys_eq by simp
qed

section \<open>The fragment-change handler\<close>

text \<open>
  C3. When the fragment the browser reports is the empty string, the navigation state
  after the fragment-change handler is \<open>#home\<close>; the same holds for the state that
  the first render initialises and for the state after mounting, when the URL has no
  fragment.
\<close>

theorem C3_empty_fragment_is_home:
  "currentView (handleHashChange (set_location_hash [] a)) = ''#home''
   \<and> currentView (hashchange [] (App_mount w)) = ''#home''
   \<and> currentView (useState_init (w\<lparr>location_hash := []\<rparr>)) = ''#home''
   \<and> currentView (App_mount (w\<lparr>location_hash := []\<rparr>)) = ''#home''"
  by (simp add: currentView_handleHashChange currentView_hashchange currentView_App_mount
      useState_init_def js_or_def)

text \<open>
  C6. The handler does not change the fragment it reads, and running it a second time
  leaves the navigation state, the output composed from it and the set of visible
  sections as they were after the first run. The same holds for two fragment-change
  events that report the same fragment \<open>f\<close>.
\<close>

theorem C6_handler_idempotent:
  "location_hash (win (handleHashChange a)) = location_hash (win a)
   \<and> currentView (handleHashChange (handleHashChange a)) = currentView (handleHashChange a)
   \<and> render (currentView (handleHashChange (handleHashChange a))) =
       render (currentView (handleHashChange a))
   \<and> set (visible (render (currentView (handleHashChange (handleHashChange a))))) =
       set (visible (render (currentView (handleHashChange a))))
   \<and> currentView (hashchange f (hashchange f a)) = currentView (hashchange f a)
   \<and> set (visible (render (currentView (hashchange f (hashchange f a))))) =
       set (visible (render (currentView (hashchange f a))))"
proof -
  have h: "location_hash (win (handleHashChange a)) = location_hash (win a)"
    by (simp add: win_handleHashChange)
  have c: "currentView (handleHashChange (handleHashChange a)) =
           currentView (handleHashChange a)"
    by (simp add: currentView_handleHashChange h)
  have e: "currentView (hashchange f (hashchange f a)) = currentView (hashchange f a)"
    by (simp add: currentView_hashchange)
  show ?thesis
    using h c e by simp
qed

text \<open>
  C7. The handler first stores the new navigation state and then calls
  \<open>scrollTo(0, 0)\<close>, which leaves the stored state alone and sets the scroll position;
  so the scroll position after the handler is the origin, and after every
  fragment-change event on the mounted application the position is the origin and the
  state is the one computed from the event's fragment.
\<close>

theorem C7_scroll_to_origin:
  "handleHashChange a =
     scrollTo 0 0 (setCurrentView (js_or (location_hash (win a)) ''#home'') a)
   \<and> currentView (scrollTo x y b) = currentView b
   \<and> scroll_pos (win (scrollTo x y b)) = (x, y)
   \<and> scroll_pos (win (handleHashChange a)) = (0, 0)
   \<and> scroll_pos (win (hashchange f (run (App_mount w) fs))) = (0, 0)
   \<and> currentView (hashchange f (run (App_mount w) fs)) = js_or f ''#home''"
proof -
  have d: "handleHashChange a =
     scrollTo 0 0 (setCurrentView (js_or (location_hash (win a)) ''#home'') a)"
    by (simp add: handleHashChange_def)
  have s: "currentView (scrollTo x y b) = currentView b
           \<and> scroll_pos (win (scrollTo x y b)) = (x, y)"
    by (simp add: scrollTo_def)
  have p: "scroll_pos (win (handleHashChange c)) = (0, 0)" for c
    by (simp add: win_handleHashChange)
  have l: "hashchange_listener (win (run (App_mount w) fs))"
    by simp
  have e: "scroll_pos (win (hashchange f (run (App_mount w) fs))) = (0, 0)"
    using l by (simp add: hashchange_def p)
  have v: "currentView (hashchange f (run (App_mount w) fs)) = js_or f ''#home''"
    using l by (simp add: currentView_hashchange)
  show ?thesis
    using d s p [of a] e v by blast
qed

text \<open>
  C8. The navigation state is never the empty string: not in the state that the first
  render initialises, not after mounting, and not after any sequence \<open>fs\<close> of
  fragment-change events, whatever fragments (empty ones too) the events report.
\<close>

theorem C8_navigation_state_nonempty:
  "currentView (useState_init w) \<noteq> []
   \<and> currentView (App_mount w) \<noteq> []
   \<and> currentView (run (useState_init w) fs) \<noteq> []
   \<and> currentView (run (App_mount w) fs) \<noteq> []"
proof -
  have i: "currentView (useState_init w) \<noteq> []"
    by (simp add: useState_init_def js_or_nonempty)
  have m: "currentView (App_mount w) \<noteq> []"
    by (simp add: currentView_App_mount js_or_nonempty)
  show ?thesis
    using i m currentView_run_nonempty by simp
qed

text \<open>
  C10. Mounting the application runs the handler once with no fragment-change event.
  Whatever state the first render left, the effect stores the state computed from the
  fragment of the window as it is: \<open>#home\<close> when the fragment is empty, the fragment
  itself otherwise (\<open>#aix\<close> when the page is loaded at \<open>#aix\<close>). The fragment is left
  alone, \<open>scrollTo(0, 0)\<close> is called exactly once more than before, the scroll position
  is the origin whatever it was, and the handler is registered.
\<close>

theorem C10_initial_load_check:
  "App_mount w = handleHashChange (addEventListener (useState_init w))
   \<and> currentView (App_mount w) = js_or (location_hash w) ''#home''
   \<and> scroll_pos (win (App_mount w)) = (0, 0)
   \<and> scrollTo_calls (win (App_mount w)) = (0, 0) # scrollTo_calls w
   \<and> location_hash (win (App_mount w)) = location_hash w
   \<and> hashchange_listener (win (App_mount w))
   \<and> currentView (useEffect_run a) =
       (if location_hash (win a) = [] then ''#home'' else location_hash (win a))
   \<and> currentView (App_mount w) =
       (if location_hash w = [] then ''#home'' else location_hash w)
   \<and> currentView (App_mount (w\<lparr>location_hash := ''#aix''\<rparr>)) = ''#aix''
   \<and> currentView (useEffect_run \<lparr>win = w\<lparr>location_hash := ''#aix''\<rparr>,
                                   currentView = ''#about''\<rparr>) = ''#aix''
   \<and> scroll_pos (win (useEffect_run a)) = (0, 0)
   \<and> scrollTo_calls (win (useEffect_run a)) = (0, 0) # scrollTo_calls (win a)
   \<and> location_hash (win (useEffect_run a)) = location_hash (win a)"
proof -
  have m: "App_mount w = handleHashChange (addEventListener (useState_init w))"
    by (simp add: App_mount_def useEffect_run_def)
  have e: "currentView (useEffect_run b) =
       (if location_hash (win b) = [] then ''#home'' else location_hash (win b))" for b
    by (simp add: useEffect_run_def currentView_handleHashChange addEventListener_def
        js_or_def)
  have v: "currentView (App_mount u) =
       (if location_hash u = [] then ''#home'' else location_hash u)" for u
    by (simp add: App_mount_def e useState_init_def)
  have j: "currentView (App_mount w) = js_or (location_hash w) ''#home''"
    by (simp add: v js_or_def)
  have x: "currentView (App_mount (w\<lparr>location_hash := ''#aix''\<rparr>)) = ''#aix''"
    by (simp add: v)
  have y: "currentView (useEffect_run \<lparr>win = w\<lparr>location_hash := ''#aix''\<rparr>,
                                   currentView = ''#about''\<rparr>) = ''#aix''"
    by (simp add: e)
  have r: "win (useEffect_run b) =
       (win b)\<lparr>hashchange_listener := True, scroll_pos := (0, 0),
                scrollTo_calls := (0, 0) # scrollTo_calls (win b)\<rparr>" for b
    by (simp add: useEffect_run_def win_handleHashChange addEventListener_def)
  have wm: "win (App_mount w) =
       w\<lparr>hashchange_listener := True, scroll_pos := (0, 0),
          scrollTo_calls := (0, 0) # scrollTo_calls w\<rparr>"
    by (simp add: App_mount_def r useState_init_def)
  have s: "scroll_pos (win (App_mount w)) = (0, 0)
           \<and> scrollTo_calls (win (App_mount w)) = (0, 0) # scrollTo_calls w
           \<and> location_hash (win (App_mount w)) = location_hash w
           \<and> hashchange_listener (win (App_mount w))"
    by (simp add: wm)
  have t: "scroll_pos (win (useEffect_run a)) = (0, 0)
           \<and> scrollTo_calls (win (useEffect_run a)) = (0, 0) # scrollTo_calls (win a)
           \<and> location_hash (win (useEffect_run a)) = location_hash (win a)"
    by (simp add: r)
  show ?thesis
    using m j s e [of a] v [of w] x y t by blast
qed

section \<open>The header's links\<close>

text \<open>
  The \<open>href\<close> values of the header are not the eight recognized fragments: no anchor of
  the header has \<open>#hero\<close>.
\<close>

theorem C9_counterexample:
  "set Header_hrefs \<noteq>
     {''#home'', ''#hero'', ''#about'', ''#programs'', ''#aix'', ''#multi-sorter'',
      ''#autonomous-car'', ''#student-exchange''}"
proof
  assume "set Header_hrefs =
     {''#home'', ''#hero'', ''#about'', ''#programs'', ''#aix'', ''#multi-sorter'',
      ''#autonomous-car'', ''#student-exchange''}"
  then have "''#hero'' \<in> set Header_hrefs"
    by simp
  then show False
    by (simp add: Header_hrefs_def navLinks_def)
qed

text \<open>
  C9, as the code has it. The set of \<open>href\<close> values of the header's anchors is
  \<open>{#home, #about, #programs, #aix, #multi-sorter, #autonomous-car, #student-exchange}\<close>:
  the recognized fragments without \<open>#hero\<close>. The anchors come in the order of the home
  page, the logo's \<open>#home\<close> first.
\<close>

theorem C9_header_hrefs:
  "set Header_hrefs =
     {''#home'', ''#about'', ''#programs'', ''#aix'', ''#multi-sorter'',
      ''#autonomous-car'', ''#student-exchange''}
   \<and> set Header_hrefs = set recognized_fragments - {''#hero''}
   \<and> Header_hrefs = ''#home'' # home_registry_keys"
proof -
  have a: "set Header_hrefs =
     {''#home'', ''#about'', ''#programs'', ''#aix'', ''#multi-sorter'',
      ''#autonomous-car'', ''#student-exchange''}"
    by (simp add: Header_hrefs_def navLinks_def)
  have b: "set recognized_fragments - {''#hero''} =
     {''#home'', ''#about'', ''#programs'', ''#aix'', ''#multi-sorter'',
      ''#autonomous-car'', ''#student-exchange''}"
    unfolding recognized_fragments_def registry_keys_eq
    by (simp add: insert_Diff_if insert_commute)
  have c: "Header_hrefs = ''#home'' # home_registry_keys"
    by (simp add: Header_hrefs_def navLinks_def home_registry_keys_eq)
  show ?thesis
    using a b c by simp
qed

end
